theory Spec2Isabelle
  imports Main "HOL-Library.Word"
begin

section \<open>JavaScript values used by the three source files\<close>

text \<open>
  A JavaScript string is modelled as a \<^typ>\<open>string\<close>: a list of code units, restricted to
  the code units below 256. Every separator, literal and message of the source lies in
  that range.
\<close>

text \<open>
  A thrown value: an instance of \<open>Error\<close> with its \<open>message\<close>, or any other value
  (the handlers of the source only test \<open>instanceof Error\<close>).
\<close>

datatype thrown = Error string | NonError

text \<open>An octet of file content.\<close>

type_synonym byte = "8 word"

text \<open>
  \<open>s.split(sep)\<close> for a one-character separator: the pieces between all occurrences,
  the empty string giving one empty piece.
\<close>

fun split :: "char \<Rightarrow> string \<Rightarrow> string list" where
  "split sep [] = [[]]"
| "split sep (c # cs) =
     (if c = sep then [] # split sep cs
      else (case split sep cs of
              [] \<Rightarrow> [[c]]
            | w # ws \<Rightarrow> (c # w) # ws))"

text \<open>\<open>xs[i]\<close>: \<open>undefined\<close> (here \<open>None\<close>) outside the array.\<close>

definition at :: "'a list \<Rightarrow> nat \<Rightarrow> 'a option" where
  "at xs i = (if i < length xs then Some (xs ! i) else None)"

text \<open>
  \<open>v || d\<close> for \<open>v\<close> of type \<open>string | undefined\<close>: \<open>undefined\<close> and the empty string
  are falsy.
\<close>

definition orElse :: "string option \<Rightarrow> string \<Rightarrow> string" where
  "orElse v d = (case v of None \<Rightarrow> d | Some s \<Rightarrow> if s = [] then d else s)"

text \<open>\<open>s.includes(sub)\<close>: \<open>sub\<close> occurs in \<open>s\<close> as a contiguous run.\<close>

fun startsWith :: "string \<Rightarrow> string \<Rightarrow> bool" where
  "startsWith s [] = True"
| "startsWith [] (p # ps) = False"
| "startsWith (c # cs) (p # ps) = (c = p \<and> startsWith cs ps)"

fun includes_str :: "string \<Rightarrow> string \<Rightarrow> bool" where
  "includes_str [] sub = (sub = [])"
| "includes_str (c # cs) sub = (startsWith (c # cs) sub \<or> includes_str cs sub)"

text \<open>
  \<open>s.trim()\<close>: white space and line terminators are removed at both ends. Among the
  code units below 256 these are TAB, LF, VT, FF, CR, SPACE and NBSP.
\<close>

definition isWhiteSpace :: "char \<Rightarrow> bool" where
  "isWhiteSpace c = (c \<in> set [CHR 0x09, CHR 0x0A, CHR 0x0B, CHR 0x0C, CHR 0x0D, CHR 0x20, CHR 0xA0])"

definition trim :: "string \<Rightarrow> string" where
  "trim s = rev (dropWhile isWhiteSpace (rev (dropWhile isWhiteSpace s)))"

section \<open>utils/fileUtils.ts\<close>

text \<open>
  What the \<open>FileReader\<close> reports for \<open>readAsDataURL(file)\<close>: \<open>onload\<close> with
  \<open>reader.result\<close>, or \<open>onerror\<close> with an event, of which the source uses only the
  string conversion (the \<open>${error}\<close> of the template).
\<close>

datatype readOutcome = Loaded string | Failed string

text \<open>
  The promise of \<open>fileToBase64\<close>: \<open>Inr\<close> is \<open>resolve\<close>, \<open>Inl\<close> is \<open>reject\<close>.
  \<open>if (base64String)\<close> is false for \<open>undefined\<close> (no second piece) and for the empty
  string.
\<close>

definition fileToBase64 :: "readOutcome \<Rightarrow> thrown + string" where
  "fileToBase64 r =
     (case r of
        Loaded result \<Rightarrow>
          (case at (split CHR '','' result) 1 of
             None \<Rightarrow> Inl (Error ''Failed to convert file to base64: result was empty.'')
           | Some base64String \<Rightarrow>
               if base64String \<noteq> [] then Inr base64String
               else Inl (Error ''Failed to convert file to base64: result was empty.''))
      | Failed error \<Rightarrow> Inl (Error (''File could not be read: '' @ error)))"

section \<open>services/geminiService.ts\<close>

text \<open>
  The shapes of the request and of the response of \<open>ai.models.generateContent\<close>. Every
  level of the response that the source reads may be absent (\<open>None\<close> is \<open>undefined\<close>);
  the \<open>data\<close> of an inline part is a string, as line 39 of the source declares it, and
  so is its \<open>mimeType\<close>.
\<close>

record inlineDataBlob =
  data :: string
  mimeType :: string

record part =
  inlineData :: "inlineDataBlob option"
  partText :: "string option"

record content =
  parts :: "part list option"

record candidate =
  content :: "content option"

record response =
  candidates :: "candidate list option"

datatype modality = IMAGE

record config =
  responseModalities :: "modality list"

record request =
  model :: string
  contents :: content
  config :: config

text \<open>The remote call returns a response or throws.\<close>

datatype callOutcome = Returns response | Throws thrown

definition enhancedPrompt :: "string \<Rightarrow> string" where
  "enhancedPrompt userPrompt =
     ''A masterpiece, high-resolution, studio quality, intricate details, ethereal mood, dramatic lighting. Focus on textures like stained glass, iridescent crystal, and glowing filaments. Using the provided image as a base, edit it to: ''
       @ [CHR 0x22] @ userPrompt @ [CHR 0x22]"

definition editRequest :: "string \<Rightarrow> string \<Rightarrow> string \<Rightarrow> request" where
  "editRequest base64ImageData mimeTypeArg userPrompt =
     \<lparr> model = ''gemini-2.5-flash-image'',
       contents = \<lparr> parts = Some
         [ \<lparr> inlineData = Some \<lparr> data = base64ImageData, mimeType = mimeTypeArg \<rparr>,
             partText = None \<rparr>,
           \<lparr> inlineData = None, partText = Some (enhancedPrompt userPrompt) \<rparr> ] \<rparr>,
       config = \<lparr> responseModalities = [IMAGE] \<rparr> \<rparr>"

text \<open>
  \<open>response.candidates[0].content.parts\<close>, and the \<open>for ... of\<close> over it: each read
  through \<open>undefined\<close> throws a \<open>TypeError\<close>. The text of its message is the engine's;
  the model takes it as a parameter \<open>typeErrorMessage\<close>.
\<close>

datatype fault =
    IndexOfUndefined
  | ContentOfUndefined
  | PartsOfUndefined
  | NotIterable

definition firstParts :: "response \<Rightarrow> fault + part list" where
  "firstParts r =
     (case candidates r of
        None \<Rightarrow> Inl IndexOfUndefined
      | Some [] \<Rightarrow> Inl ContentOfUndefined
      | Some (c # cs) \<Rightarrow>
          (case content c of
             None \<Rightarrow> Inl PartsOfUndefined
           | Some ct \<Rightarrow>
               (case parts ct of
                  None \<Rightarrow> Inl NotIterable
                | Some ps \<Rightarrow> Inr ps)))"

text \<open>The loop of lines 37 to 42: it returns at the first part with \<open>inlineData\<close>.\<close>

fun scanParts :: "part list \<Rightarrow> string option" where
  "scanParts [] = None"
| "scanParts (p # ps) =
     (case inlineData p of
        Some b \<Rightarrow> Some (''data:'' @ mimeType b @ '';base64,'' @ data b)
      | None \<Rightarrow> scanParts ps)"

text \<open>The body of the \<open>try\<close>: \<open>Inl\<close> is what it throws.\<close>

definition tryBlock :: "(fault \<Rightarrow> string) \<Rightarrow> callOutcome \<Rightarrow> thrown + string" where
  "tryBlock typeErrorMessage outcome =
     (case outcome of
        Throws e \<Rightarrow> Inl e
      | Returns r \<Rightarrow>
          (case firstParts r of
             Inl f \<Rightarrow> Inl (Error (typeErrorMessage f))
           | Inr ps \<Rightarrow>
               (case scanParts ps of
                  Some uri \<Rightarrow> Inr uri
                | None \<Rightarrow> Inl (Error ''No image data was found in the API response.''))))"

text \<open>The \<open>catch\<close>: what it throws for the value it caught.\<close>

definition catchBlock :: "thrown \<Rightarrow> thrown" where
  "catchBlock e =
     (case e of
        Error message \<Rightarrow>
          if includes_str message ''API key not valid''
          then Error ''The provided API key is not valid. Please check your configuration.''
          else Error (''Failed to edit image: '' @ message)
      | NonError \<Rightarrow> Error ''An unknown error occurred while communicating with the AI model.'')"

text \<open>
  \<open>editImageWithPrompt\<close>: \<open>Inr\<close> is the value the promise resolves with, \<open>Inl\<close> the
  value it is rejected with. The remote call \<open>ai.models.generateContent\<close> is a
  parameter; it is called once, with the request built from the three arguments. The
  construction of the client in line 11 is taken not to throw, and the
  \<open>console.error\<close> of the \<open>catch\<close> has no effect on the result.
\<close>

definition editImageWithPrompt ::
  "(fault \<Rightarrow> string) \<Rightarrow> (request \<Rightarrow> callOutcome) \<Rightarrow> string \<Rightarrow> string \<Rightarrow> string \<Rightarrow> thrown + string" where
  "editImageWithPrompt typeErrorMessage generateContent base64ImageData mimeTypeArg userPrompt =
     (case tryBlock typeErrorMessage
             (generateContent (editRequest base64ImageData mimeTypeArg userPrompt)) of
        Inr uri \<Rightarrow> Inr uri
      | Inl e \<Rightarrow> Inl (catchBlock e))"

text \<open>Mocked services: one that returns a given response, one that throws a given value.\<close>

definition respondWith :: "response \<Rightarrow> request \<Rightarrow> callOutcome" where
  "respondWith r req = Returns r"

definition throwing :: "thrown \<Rightarrow> request \<Rightarrow> callOutcome" where
  "throwing e req = Throws e"

text \<open>A sample of engine texts for the \<open>TypeError\<close>s, for concrete runs.\<close>

fun sampleTypeErrorMessage :: "fault \<Rightarrow> string" where
  "sampleTypeErrorMessage NotIterable = ''undefined is not iterable''"
| "sampleTypeErrorMessage f = ''Cannot read properties of undefined''"

section \<open>The component App\<close>

text \<open>
  A \<open>File\<close>: its name, its declared media type and its content. The six state
  variables of \<open>App\<close> form the session state; \<open>None\<close> is \<open>null\<close>.
\<close>

record File =
  name :: string
  type :: string
  bytes :: "byte list"

record session =
  originalImageFile :: "File option"
  originalImagePreview :: "string option"
  editedImage :: "string option"
  prompt :: string
  isLoading :: bool
  error :: "string option"

definition initialSession :: session where
  "initialSession =
     \<lparr> originalImageFile = None, originalImagePreview = None, editedImage = None,
       prompt = [], isLoading = False, error = None \<rparr>"

text \<open>
  \<open>handleImageChange\<close>, for the first file of the event (if any) and the URL that
  \<open>URL.createObjectURL\<close> returns for it. The release of the former object URL acts on
  the browser's URL store only and is not part of the session state.
\<close>

definition handleImageChange :: "File option \<Rightarrow> string \<Rightarrow> session \<Rightarrow> session" where
  "handleImageChange fileOpt objectURL s =
     (case fileOpt of
        None \<Rightarrow> s
      | Some f \<Rightarrow>
          s\<lparr> originalImageFile := Some f,
             originalImagePreview := Some objectURL,
             editedImage := None,
             error := None \<rparr>)"

text \<open>
  \<open>handleDownload\<close>: the link it clicks (\<open>href\<close> and \<open>download\<close>), if any. The state is
  not changed.
\<close>

definition extensionOf :: "string \<Rightarrow> string" where
  "extensionOf uri =
     (let mimeTypeStr = orElse (at (split CHR '':'' (hd (split CHR '';'' uri))) 1) ''image/png'';
          extension = orElse (at (split CHR ''/'' mimeTypeStr) 1) ''png''
      in extension)"

definition handleDownload :: "session \<Rightarrow> (string \<times> string) option" where
  "handleDownload s =
     (case editedImage s of
        None \<Rightarrow> None
      | Some uri \<Rightarrow>
          if uri = [] then None
          else Some (uri, ''alchemized-image.'' @ extensionOf uri))"

text \<open>
  \<open>handleSubmit\<close> runs in three segments, separated by its two \<open>await\<close>s. A segment
  runs to completion, and the state changes it makes are committed together; what is
  left of the call at an \<open>await\<close> is a value of type \<open>inflight\<close>, which holds the
  variables the rest of the call uses (the file and the prompt of the closure).
\<close>

datatype inflight =
    AwaitingEncoder File string
  | AwaitingEditClient string string string

text \<open>
  The first segment, up to \<open>await fileToBase64(originalImageFile)\<close>. The second
  component is \<open>None\<close> when the handler returns without calling anything.
\<close>

definition handleSubmit :: "session \<Rightarrow> session \<times> inflight option" where
  "handleSubmit s =
     (case originalImageFile s of
        None \<Rightarrow> (s\<lparr> error := Some ''Please upload an image first.'' \<rparr>, None)
      | Some f \<Rightarrow>
          if trim (prompt s) = []
          then (s\<lparr> error := Some ''Please enter an editing prompt.'' \<rparr>, None)
          else (s\<lparr> isLoading := True, error := None, editedImage := None \<rparr>,
                Some (AwaitingEncoder f (prompt s))))"

text \<open>The \<open>catch\<close> and the \<open>finally\<close> of \<open>handleSubmit\<close>.\<close>

definition submitCatch :: "thrown \<Rightarrow> session \<Rightarrow> session" where
  "submitCatch err s =
     (let errorMessage = (case err of Error message \<Rightarrow> message
                                    | NonError \<Rightarrow> ''An unexpected error occurred.'')
      in s\<lparr> error := Some errorMessage \<rparr>)"

definition submitFinally :: "session \<Rightarrow> session" where
  "submitFinally s = s\<lparr> isLoading := False \<rparr>"

text \<open>
  The segment after an \<open>await\<close>, for the outcome of the awaited promise (\<open>Inl\<close>: it was
  rejected with that value). After the encoder resolved, the call to
  \<open>editImageWithPrompt\<close> is the next thing awaited.
\<close>

fun resume :: "inflight \<Rightarrow> thrown + string \<Rightarrow> session \<Rightarrow> session \<times> inflight option" where
  "resume (AwaitingEncoder f p) (Inr base64Data) s =
     (s, Some (AwaitingEditClient base64Data (type f) p))"
| "resume (AwaitingEncoder f p) (Inl err) s =
     (submitFinally (submitCatch err s), None)"
| "resume (AwaitingEditClient base64Data mimeTypeArg p) (Inr result) s =
     (submitFinally (s\<lparr> editedImage := Some result \<rparr>), None)"
| "resume (AwaitingEditClient base64Data mimeTypeArg p) (Inl err) s =
     (submitFinally (submitCatch err s), None)"

text \<open>
  One whole submission with nothing else happening in between: the reader's outcome
  for the file and the remote service are the environment.
\<close>

definition submitRun ::
  "(File \<Rightarrow> readOutcome) \<Rightarrow> (fault \<Rightarrow> string) \<Rightarrow> (request \<Rightarrow> callOutcome) \<Rightarrow> session \<Rightarrow> session" where
  "submitRun readAs typeErrorMessage generateContent s =
     (case handleSubmit s of
        (s1, None) \<Rightarrow> s1
      | (s1, Some k1) \<Rightarrow>
          (case k1 of
             AwaitingEncoder f p \<Rightarrow>
               (case resume k1 (fileToBase64 (readAs f)) s1 of
                  (s2, None) \<Rightarrow> s2
                | (s2, Some k2) \<Rightarrow>
                    (case k2 of
                       AwaitingEditClient b m q \<Rightarrow>
                         fst (resume k2 (editImageWithPrompt typeErrorMessage generateContent b m q) s2)
                     | AwaitingEncoder f' p' \<Rightarrow> s2))
           | AwaitingEditClient b m q \<Rightarrow> s1))"

text \<open>
  The session together with the calls of \<open>handleSubmit\<close> that are suspended at an
  \<open>await\<close>. A step is one event: a file is chosen (the file input is never disabled),
  the prompt is edited (the textarea is disabled while \<open>isLoading\<close>), the button is
  clicked (it is disabled while \<open>isLoading\<close> or without a file), or an awaited promise
  settles.
\<close>

inductive step :: "session \<times> inflight list \<Rightarrow> session \<times> inflight list \<Rightarrow> bool" where
  selectFile: "step (s, ks) (handleImageChange fileOpt objectURL s, ks)"
| editPrompt: "\<not> isLoading s \<Longrightarrow> step (s, ks) (s\<lparr> prompt := p \<rparr>, ks)"
| clickSubmit:
    "\<not> (isLoading s \<or> originalImageFile s = None) \<Longrightarrow> handleSubmit s = (s', k) \<Longrightarrow>
     step (s, ks) (s', ks @ (case k of None \<Rightarrow> [] | Some k' \<Rightarrow> [k']))"
| settle:
    "resume k outcome s = (s', k') \<Longrightarrow>
     step (s, as @ k # bs) (s', as @ (case k' of None \<Rightarrow> [] | Some k'' \<Rightarrow> [k'']) @ bs)"

inductive reachable :: "session \<times> inflight list \<Rightarrow> bool" where
  initial: "reachable (initialSession, [])"
| after: "reachable c \<Longrightarrow> step c c' \<Longrightarrow> reachable c'"

section \<open>The browser's part: data URIs\<close>

text \<open>
  \<open>FileReader.readAsDataURL\<close> and the decoding of a data URI belong to the browser,
  not to the repository. They are modelled from the File API and from RFC 2397 and
  RFC 4648, to state what the output of \<open>fileToBase64\<close> decodes to.
\<close>

text \<open>The alphabet of RFC 4648; a sextet \<open>v\<close> is written as its \<open>v\<close>-th character.\<close>

definition base64Alphabet :: string where
  "base64Alphabet = ''ABCDEFGHIJKLMNOPQRSTUVWXYZabcdefghijklmnopqrstuvwxyz0123456789+/''"

definition base64Char :: "nat \<Rightarrow> char" where
  "base64Char v = base64Alphabet ! (v mod 64)"

fun indexOf :: "'a \<Rightarrow> 'a list \<Rightarrow> nat option" where
  "indexOf x [] = None"
| "indexOf x (y # ys) = (if x = y then Some 0 else map_option Suc (indexOf x ys))"

definition base64Value :: "char \<Rightarrow> nat option" where
  "base64Value c = indexOf c base64Alphabet"

text \<open>Three octets form a 24-bit group, written as four sextets; a last group of one or
  two octets is filled with zero bits and padded with \<open>=\<close>.\<close>

definition group24 :: "byte \<Rightarrow> byte \<Rightarrow> byte \<Rightarrow> nat" where
  "group24 a b c = unat a * 65536 + unat b * 256 + unat c"

definition sextets :: "nat \<Rightarrow> string" where
  "sextets n = [base64Char (n div 262144), base64Char (n div 4096), base64Char (n div 64), base64Char n]"

fun base64 :: "byte list \<Rightarrow> string" where
  "base64 [] = []"
| "base64 [a] = take 2 (sextets (group24 a 0 0)) @ ''==''"
| "base64 [a, b] = take 3 (sextets (group24 a b 0)) @ ''=''"
| "base64 (a # b # c # rest) = sextets (group24 a b c) @ base64 rest"

text \<open>Decoding: four characters give back a 24-bit group and its octets.\<close>

definition octets :: "nat \<Rightarrow> byte list" where
  "octets n = [of_nat (n div 65536), of_nat (n div 256), of_nat n]"

definition value24 :: "char \<Rightarrow> char \<Rightarrow> char \<Rightarrow> char \<Rightarrow> nat option" where
  "value24 c0 c1 c2 c3 =
     (case (base64Value c0, base64Value c1, base64Value c2, base64Value c3) of
        (Some v0, Some v1, Some v2, Some v3) \<Rightarrow> Some (v0 * 262144 + v1 * 4096 + v2 * 64 + v3)
      | _ \<Rightarrow> None)"

fun unbase64 :: "string \<Rightarrow> byte list option" where
  "unbase64 [] = Some []"
| "unbase64 (c0 # c1 # c2 # c3 # rest) =
     (if rest = [] \<and> c3 = CHR ''='' then
        (if c2 = CHR ''='' then map_option (\<lambda>n. take 1 (octets n)) (value24 c0 c1 CHR ''A'' CHR ''A'')
         else map_option (\<lambda>n. take 2 (octets n)) (value24 c0 c1 c2 CHR ''A''))
      else
        (case value24 c0 c1 c2 c3 of
           None \<Rightarrow> None
         | Some n \<Rightarrow> map_option (\<lambda>bs. octets n @ bs) (unbase64 rest)))"
| "unbase64 cs = None"

text \<open>
  The result of a successful \<open>readAsDataURL\<close>: the declared type (or
  \<open>application/octet-stream\<close> when the file declares none) and the encoded content.
\<close>

definition readAsDataURL :: "File \<Rightarrow> readOutcome" where
  "readAsDataURL f =
     Loaded (''data:'' @ (if type f = [] then ''application/octet-stream'' else type f)
               @ '';base64,'' @ base64 (bytes f))"

text \<open>
  Decoding a URI \<open>data:<mediatype>;base64,<payload>\<close>: the media type and the octets,
  or \<open>None\<close> when the text has not that form.
\<close>

definition endsWith :: "string \<Rightarrow> string \<Rightarrow> bool" where
  "endsWith s suffix = startsWith (rev s) (rev suffix)"

definition decodeDataURI :: "string \<Rightarrow> (string \<times> byte list) option" where
  "decodeDataURI uri =
     (if \<not> startsWith uri ''data:'' then None
      else
        (let rest = drop 5 uri;
             header = takeWhile (\<lambda>c. c \<noteq> CHR '','') rest;
             body = dropWhile (\<lambda>c. c \<noteq> CHR '','') rest
         in if body = [] \<or> \<not> endsWith header '';base64'' then None
            else map_option (Pair (take (length header - 7) header)) (unbase64 (tl body))))"

section \<open>Concrete inputs\<close>

text \<open>A reader that reports an error, a file and two sessions, for concrete runs.\<close>

definition readFails :: "File \<Rightarrow> readOutcome" where
  "readFails f = Failed ''[object ProgressEvent]''"

definition sampleFile :: File where
  "sampleFile = \<lparr> name = ''cat.png'', type = ''image/png'', bytes = [77, 97, 110] \<rparr>"

definition readySession :: session where
  "readySession =
     \<lparr> originalImageFile = Some sampleFile,
       originalImagePreview = Some ''blob:1'',
       editedImage = None,
       prompt = ''make it blue'',
       isLoading = False,
       error = None \<rparr>"

definition doneSession :: session where
  "doneSession = readySession\<lparr> editedImage := Some ''data:image/png;base64,AAAA'' \<rparr>"

section \<open>Facts about the string helpers\<close>

lemma split_not_Nil: "split sep s \<noteq> []"
  by (induction s) (auto split: list.splits)

lemma split_no_sep: "sep \<notin> set s \<Longrightarrow> split sep s = [s]"
  by (induction s) auto

lemma split_append_sep:
  "sep \<notin> set pre \<Longrightarrow> split sep (pre @ sep # rest) = pre # split sep rest"
  by (induction pre) auto

lemma startsWith_append: "startsWith (p @ s) p"
  by (induction p) auto

lemma hd_split_prefix: "sep \<notin> set pre \<Longrightarrow> hd (split sep (pre @ sep # rest)) = pre"
  by (simp add: split_append_sep)

lemma at_split_second:
  "sep \<notin> set pre \<Longrightarrow> sep \<notin> set seg \<Longrightarrow> at (split sep (pre @ sep # seg)) 1 = Some seg"
  by (simp add: split_append_sep split_no_sep at_def)

lemma at_split_none: "sep \<notin> set s \<Longrightarrow> at (split sep s) 1 = None"
  by (simp add: split_no_sep at_def)

lemma endsWith_append: "endsWith (s @ suffix) suffix"
  by (simp add: endsWith_def startsWith_append)

lemma startsWith_iff: "startsWith s p \<longleftrightarrow> (\<exists>post. s = p @ post)"
  by (induction s p rule: startsWith.induct) auto

lemma includes_str_iff: "includes_str s sub \<longleftrightarrow> (\<exists>pre post. s = pre @ sub @ post)"
proof (induction s)
  case Nil
  then show ?case by auto
next
  case (Cons c cs)
  show ?case
  proof
    assume "includes_str (c # cs) sub"
    then consider "startsWith (c # cs) sub" | "includes_str cs sub"
      by auto
    then show "\<exists>pre post. c # cs = pre @ sub @ post"
    proof cases
      case 1
      then obtain post where "c # cs = sub @ post"
        by (auto simp: startsWith_iff)
      then have "c # cs = [] @ sub @ post" by simp
      then show ?thesis by blast
    next
      case 2
      with Cons.IH obtain pre post where "cs = pre @ sub @ post" by blast
      then have "c # cs = (c # pre) @ sub @ post" by simp
      then show ?thesis by blast
    qed
  next
    assume "\<exists>pre post. c # cs = pre @ sub @ post"
    then obtain pre post where eq: "c # cs = pre @ sub @ post" by blast
    show "includes_str (c # cs) sub"
    proof (cases pre)
      case Nil
      with eq have "startsWith (c # cs) sub"
        by (auto simp: startsWith_iff)
      then show ?thesis by simp
    next
      case (Cons d pre')
      with eq have "cs = pre' @ sub @ post" by simp
      with Cons.IH have "includes_str cs sub" by blast
      then show ?thesis by simp
    qed
  qed
qed

lemma includes_str_suffix: "includes_str (p @ m) m"
proof -
  have "p @ m = p @ m @ []" by simp
  then show ?thesis unfolding includes_str_iff by blast
qed

lemma trim_Nil_iff: "trim p = [] \<longleftrightarrow> (\<forall>c \<in> set p. isWhiteSpace c)"
proof
  assume "trim p = []"
  then have all: "\<forall>c \<in> set (dropWhile isWhiteSpace p). isWhiteSpace c"
    by (simp add: trim_def dropWhile_eq_Nil_conv)
  have "dropWhile isWhiteSpace p = []"
  proof (rule ccontr)
    assume ne: "dropWhile isWhiteSpace p \<noteq> []"
    then have "\<not> isWhiteSpace (hd (dropWhile isWhiteSpace p))"
      by (rule hd_dropWhile)
    moreover from ne have "hd (dropWhile isWhiteSpace p) \<in> set (dropWhile isWhiteSpace p)"
      by (rule hd_in_set)
    ultimately show False using all by blast
  qed
  then show "\<forall>c \<in> set p. isWhiteSpace c"
    by (simp add: dropWhile_eq_Nil_conv)
next
  assume "\<forall>c \<in> set p. isWhiteSpace c"
  then have d: "dropWhile isWhiteSpace p = []"
    by (simp add: dropWhile_eq_Nil_conv)
  show "trim p = []"
    unfolding trim_def d by simp
qed

section \<open>Facts about the scan of the response\<close>

lemma scanParts_first:
  "\<forall>q \<in> set pre. inlineData q = None \<Longrightarrow> inlineData x = Some b \<Longrightarrow>
   scanParts (pre @ x # rest) = Some (''data:'' @ mimeType b @ '';base64,'' @ data b)"
  by (induction pre) auto

lemma scanParts_None_iff: "scanParts ps = None \<longleftrightarrow> (\<forall>q \<in> set ps. inlineData q = None)"
  by (induction ps) (auto split: option.splits)

lemma firstParts_Inr_iff:
  "firstParts r = Inr ps \<longleftrightarrow>
     (\<exists>c cs ct. candidates r = Some (c # cs) \<and> content c = Some ct \<and> parts ct = Some ps)"
  by (auto simp: firstParts_def split: option.splits list.splits)

lemma firstParts_Inl_iff:
  "(\<exists>f. firstParts r = Inl f) \<longleftrightarrow>
     (candidates r = None \<or> candidates r = Some [] \<or>
      (\<exists>c cs. candidates r = Some (c # cs) \<and>
         (content c = None \<or> (\<exists>ct. content c = Some ct \<and> parts ct = None))))"
  by (auto simp: firstParts_def split: option.splits list.splits)

section \<open>Facts about the submission\<close>

lemma resume_failure:
  "resume k (Inl err) s
     = (s\<lparr> error := Some (case err of Error message \<Rightarrow> message
                                     | NonError \<Rightarrow> ''An unexpected error occurred.''),
           isLoading := False \<rparr>, None)"
  by (cases k) (simp_all add: submitCatch_def submitFinally_def)

lemma handleSubmit_starts:
  "originalImageFile s = Some f \<Longrightarrow> trim (prompt s) \<noteq> [] \<Longrightarrow>
   handleSubmit s
     = (s\<lparr> isLoading := True, error := None, editedImage := None \<rparr>,
        Some (AwaitingEncoder f (prompt s)))"
  by (simp add: handleSubmit_def)

lemma handleSubmit_Some:
  "handleSubmit s = (s', Some k) \<Longrightarrow>
   s' = s\<lparr> isLoading := True, error := None, editedImage := None \<rparr>"
  by (auto simp: handleSubmit_def split: option.splits if_splits)

lemma handleSubmit_None:
  "handleSubmit s = (s', None) \<Longrightarrow> isLoading s' = isLoading s"
  by (auto simp: handleSubmit_def split: option.splits if_splits)

lemma resume_cases:
  "resume k outcome s = (s', k') \<Longrightarrow> (k' = None \<and> \<not> isLoading s') \<or> (k' \<noteq> None \<and> s' = s)"
  by (cases k; cases outcome) (auto simp: submitCatch_def submitFinally_def)

lemma step_keeps_loading_clean:
  assumes "step c c'"
    and "isLoading (fst c) \<longrightarrow> editedImage (fst c) = None \<and> error (fst c) = None"
  shows "isLoading (fst c') \<longrightarrow> editedImage (fst c') = None \<and> error (fst c') = None"
  using assms
proof (induction rule: step.induct)
  case (selectFile s ks fileOpt objectURL)
  then show ?case
    by (cases fileOpt) (simp_all add: handleImageChange_def)
next
  case (editPrompt s ks p)
  then show ?case by simp
next
  case (clickSubmit s s' k ks)
  show ?case
  proof (cases k)
    case None
    with clickSubmit.hyps have "isLoading s' = isLoading s"
      by (simp add: handleSubmit_None)
    with clickSubmit.hyps show ?thesis by simp
  next
    case (Some k1)
    with clickSubmit.hyps
    have "s' = s\<lparr> isLoading := True, error := None, editedImage := None \<rparr>"
      by (simp add: handleSubmit_Some)
    then show ?thesis by simp
  qed
next
  case (settle k outcome s s' k' as bs)
  from resume_cases [OF settle.hyps] settle.prems show ?case
    by auto
qed

lemma reachable_loading_clean:
  "reachable c \<Longrightarrow> isLoading (fst c) \<longrightarrow> editedImage (fst c) = None \<and> error (fst c) = None"
proof (induction rule: reachable.induct)
  case initial
  then show ?case by (simp add: initialSession_def)
next
  case (after c c')
  from after.hyps(2) after.IH show ?case
    by (rule step_keeps_loading_clean)
qed

section \<open>Facts about the download\<close>

lemma orElse_Some: "v \<noteq> [] \<Longrightarrow> orElse (Some v) d = v"
  by (simp add: orElse_def)

lemma orElse_falsy: "orElse None d = d" "orElse (Some []) d = d"
  by (simp_all add: orElse_def)

lemma extension_png: "orElse (at (split CHR ''/'' ''image/png'') 1) ''png'' = ''png''"
  by (simp add: at_def orElse_def)

lemma extensionOf_head:
  assumes "CHR '';'' \<notin> set h"
  shows "extensionOf (h @ CHR '';'' # rest)
           = orElse (at (split CHR ''/'' (orElse (at (split CHR '':'' h) 1) ''image/png'')) 1) ''png''"
  using assms by (simp add: extensionOf_def hd_split_prefix)

lemma extensionOf_subtype:
  assumes "CHR '':'' \<notin> set scheme" "CHR '';'' \<notin> set scheme"
    and "set t \<inter> {CHR '':'', CHR '';'', CHR ''/''} = {}"
    and "set sub \<inter> {CHR '':'', CHR '';'', CHR ''/''} = {}"
    and "sub \<noteq> []"
  shows "extensionOf (scheme @ '':'' @ t @ ''/'' @ sub @ '';'' @ rest) = sub"
proof -
  let ?m = "t @ CHR ''/'' # sub"
  have uri: "scheme @ '':'' @ t @ ''/'' @ sub @ '';'' @ rest = (scheme @ CHR '':'' # ?m) @ CHR '';'' # rest"
    by simp
  have semi: "CHR '';'' \<notin> set (scheme @ CHR '':'' # ?m)"
    using assms(2-4) by auto
  have colon: "CHR '':'' \<notin> set ?m"
    using assms(3,4) by auto
  have 1: "at (split CHR '':'' (scheme @ CHR '':'' # ?m)) 1 = Some ?m"
    using assms(1) colon by (rule at_split_second)
  have 2: "orElse (Some ?m) ''image/png'' = ?m"
    by (rule orElse_Some) simp
  have "CHR ''/'' \<notin> set t" "CHR ''/'' \<notin> set sub"
    using assms(3,4) by auto
  then have 3: "at (split CHR ''/'' ?m) 1 = Some sub"
    by (rule at_split_second)
  show ?thesis
    unfolding uri extensionOf_head [OF semi] 1 2 3 using assms(5) by (rule orElse_Some)
qed

lemma extensionOf_no_slash:
  assumes "CHR '':'' \<notin> set scheme" "CHR '';'' \<notin> set scheme"
    and "set t \<inter> {CHR '':'', CHR '';'', CHR ''/''} = {}"
  shows "extensionOf (scheme @ '':'' @ t @ '';'' @ rest) = ''png''"
proof -
  have uri: "scheme @ '':'' @ t @ '';'' @ rest = (scheme @ CHR '':'' # t) @ CHR '';'' # rest"
    by simp
  have semi: "CHR '';'' \<notin> set (scheme @ CHR '':'' # t)"
    using assms(2,3) by auto
  have "CHR '':'' \<notin> set t"
    using assms(3) by auto
  with assms(1) have 1: "at (split CHR '':'' (scheme @ CHR '':'' # t)) 1 = Some t"
    by (rule at_split_second)
  have "CHR ''/'' \<notin> set t"
    using assms(3) by auto
  then have 3: "at (split CHR ''/'' t) 1 = None"
    by (rule at_split_none)
  have e: "extensionOf (scheme @ '':'' @ t @ '';'' @ rest)
             = orElse (at (split CHR ''/'' (orElse (Some t) ''image/png'')) 1) ''png''"
    unfolding uri extensionOf_head [OF semi] 1 ..
  show ?thesis
  proof (cases "t = []")
    case True
    show ?thesis
      unfolding e by (simp only: True orElse_falsy extension_png)
  next
    case False
    then have 2: "orElse (Some t) ''image/png'' = t"
      by (rule orElse_Some)
    show ?thesis
      unfolding e 2 3 by (rule orElse_falsy)
  qed
qed

lemma extensionOf_empty_subtype:
  assumes "CHR '':'' \<notin> set scheme" "CHR '';'' \<notin> set scheme"
    and "set t \<inter> {CHR '':'', CHR '';'', CHR ''/''} = {}"
  shows "extensionOf (scheme @ '':'' @ t @ ''/'' @ '';'' @ rest) = ''png''"
proof -
  let ?m = "t @ CHR ''/'' # []"
  have uri: "scheme @ '':'' @ t @ ''/'' @ '';'' @ rest = (scheme @ CHR '':'' # ?m) @ CHR '';'' # rest"
    by simp
  have semi: "CHR '';'' \<notin> set (scheme @ CHR '':'' # ?m)"
    using assms(2,3) by auto
  have colon: "CHR '':'' \<notin> set ?m"
    using assms(3) by auto
  have 1: "at (split CHR '':'' (scheme @ CHR '':'' # ?m)) 1 = Some ?m"
    using assms(1) colon by (rule at_split_second)
  have 2: "orElse (Some ?m) ''image/png'' = ?m"
    by (rule orElse_Some) simp
  have "CHR ''/'' \<notin> set t"
    using assms(3) by auto
  then have 3: "at (split CHR ''/'' ?m) 1 = Some []"
    by (rule at_split_second) simp
  show ?thesis
    unfolding uri extensionOf_head [OF semi] 1 2 3 by (rule orElse_falsy)
qed

lemma extensionOf_no_colon:
  assumes "CHR '':'' \<notin> set scheme" "CHR '';'' \<notin> set scheme"
  shows "extensionOf (scheme @ '';'' @ rest) = ''png''" and "extensionOf scheme = ''png''"
proof -
  have 1: "at (split CHR '':'' scheme) 1 = None"
    using assms(1) by (rule at_split_none)
  have uri: "scheme @ '';'' @ rest = scheme @ CHR '';'' # rest"
    by simp
  show "extensionOf (scheme @ '';'' @ rest) = ''png''"
    unfolding uri extensionOf_head [OF assms(2)] 1 orElse_falsy by (rule extension_png)
  have h: "hd (split CHR '';'' scheme) = scheme"
    using assms(2) by (simp add: split_no_sep)
  show "extensionOf scheme = ''png''"
    unfolding extensionOf_def Let_def h 1 orElse_falsy by (rule extension_png)
qed

section \<open>Facts about the base64 code\<close>

lemma indexOf_nth: "distinct xs \<Longrightarrow> i < length xs \<Longrightarrow> indexOf (xs ! i) xs = Some i"
proof (induction xs arbitrary: i)
  case Nil
  then show ?case by simp
next
  case (Cons y ys)
  show ?case
  proof (cases i)
    case 0
    then show ?thesis by simp
  next
    case (Suc j)
    with Cons.prems have "ys ! j \<in> set ys" "y \<notin> set ys" "distinct ys" "j < length ys"
      by auto
    with Cons.IH [of j] Suc show ?thesis by auto
  qed
qed

lemma length_base64Alphabet: "length base64Alphabet = 64"
  by (simp add: base64Alphabet_def)

lemma distinct_base64Alphabet: "distinct base64Alphabet"
  by (simp add: base64Alphabet_def)

lemma base64Value_base64Char: "base64Value (base64Char v) = Some (v mod 64)"
  by (simp add: base64Value_def base64Char_def indexOf_nth distinct_base64Alphabet
      length_base64Alphabet)

lemma base64Char_in: "base64Char v \<in> set base64Alphabet"
  by (simp add: base64Char_def length_base64Alphabet)

lemma base64Char_not_pad: "base64Char v \<noteq> CHR ''=''"
proof -
  have "CHR ''='' \<notin> set base64Alphabet" by (simp add: base64Alphabet_def)
  with base64Char_in [of v] show ?thesis by metis
qed

lemma base64Char_not_comma: "base64Char v \<noteq> CHR '',''"
proof -
  have "CHR '','' \<notin> set base64Alphabet" by (simp add: base64Alphabet_def)
  with base64Char_in [of v] show ?thesis by metis
qed

lemma base64Value_A: "base64Value CHR ''A'' = Some 0"
  by (simp add: base64Value_def base64Alphabet_def)

lemma sextets_sum:
  assumes "n < 16777216"
  shows "(n div 262144) mod 64 * 262144 + (n div 4096) mod 64 * 4096
           + (n div 64) mod 64 * 64 + n mod 64 = (n::nat)"
proof -
  define q1 where "q1 = n div 64"
  define q2 where "q2 = q1 div 64"
  define q3 where "q3 = q2 div 64"
  define r0 where "r0 = n mod 64"
  define r1 where "r1 = q1 mod 64"
  define r2 where "r2 = q2 mod 64"
  have a: "n div 4096 = q2"
    unfolding q2_def q1_def by (simp add: div_mult2_eq [symmetric])
  have b: "n div 262144 = q3"
    unfolding q3_def q2_def q1_def by (simp add: div_mult2_eq [symmetric])
  have "n div 262144 < 64"
    using assms by (simp add: div_less_iff_less_mult)
  then have c: "q3 mod 64 = q3"
    using b by simp
  have 1: "n = q1 * 64 + r0"
    unfolding q1_def r0_def by simp
  have 2: "q1 = q2 * 64 + r1"
    unfolding q2_def r1_def by simp
  have 3: "q2 = q3 * 64 + r2"
    unfolding q3_def r2_def by simp
  have "q3 * 262144 + r2 * 4096 + r1 * 64 + r0 = n"
    using 1 2 3 by simp
  then show ?thesis
    unfolding a b c unfolding r0_def r1_def r2_def q1_def [symmetric] a .
qed

lemma value24_sextets:
  "n < 16777216 \<Longrightarrow>
   value24 (base64Char (n div 262144)) (base64Char (n div 4096)) (base64Char (n div 64)) (base64Char n)
     = Some n"
  unfolding value24_def base64Value_base64Char prod.case option.case
  by (simp only: sextets_sum)

lemma mod_low_octet: "(x * 65536 + y * 256 + z) mod 256 = z mod (256::nat)"
proof -
  have "x * 65536 + y * 256 + z = z + (x * 256 + y) * 256"
    by simp
  then show ?thesis
    by (simp only: mod_mult_self1)
qed

lemma group24_bound: "group24 a b c < 16777216"
proof -
  have "unat a < 256" "unat b < 256" "unat c < 256"
    using unsigned_less [of a] unsigned_less [of b] unsigned_less [of c] by simp_all
  then show ?thesis by (simp add: group24_def)
qed

lemma octets_group24: "octets (group24 a b c) = [a, b, c]"
proof -
  have bd: "unat a < 256" "unat b < 256" "unat c < 256"
    using unsigned_less [of a] unsigned_less [of b] unsigned_less [of c] by simp_all
  have 1: "group24 a b c div 65536 = unat a"
    using bd by (simp add: group24_def)
  have 2: "group24 a b c div 256 = unat a * 256 + unat b"
    using bd by (simp add: group24_def)
  have "(of_nat (unat a * 256 + unat b) :: byte) = of_nat (unat b)"
    unfolding word_of_nat_eq_iff take_bit_eq_mod by simp
  also have "\<dots> = b"
    by simp
  finally have 3: "(of_nat (unat a * 256 + unat b) :: byte) = b" .
  have "(of_nat (group24 a b c) :: byte) = of_nat (unat c)"
    unfolding word_of_nat_eq_iff take_bit_eq_mod group24_def
    by (simp add: mod_low_octet)
  also have "\<dots> = c"
    by simp
  finally have 4: "(of_nat (group24 a b c) :: byte) = c" .
  show ?thesis
    unfolding octets_def 1 2 3 4 by simp
qed

lemma value24_two:
  assumes "n < 16777216" and "n mod 4096 = 0"
  shows "value24 (base64Char (n div 262144)) (base64Char (n div 4096)) CHR ''A'' CHR ''A'' = Some n"
proof -
  from assms(2) have "4096 dvd n"
    by (rule mod_0_imp_dvd)
  then obtain k where k: "n = 4096 * k"
    by (rule dvdE)
  have "n div 64 = 64 * k"
    by (simp add: k)
  then have m1: "n div 64 mod 64 = 0"
    by simp
  have m0: "n mod 64 = 0"
    by (simp add: k mod_mult_left_eq)
  from sextets_sum [OF assms(1)]
  have "(n div 262144) mod 64 * 262144 + (n div 4096) mod 64 * 4096 + 0 * 64 + 0 = n"
    unfolding m0 m1 .
  then show ?thesis
    unfolding value24_def base64Value_base64Char base64Value_A prod.case option.case
    by (simp only:)
qed

lemma value24_three:
  assumes "n < 16777216" and "n mod 64 = 0"
  shows "value24 (base64Char (n div 262144)) (base64Char (n div 4096)) (base64Char (n div 64)) CHR ''A''
     = Some n"
proof -
  from sextets_sum [OF assms(1)]
  have "(n div 262144) mod 64 * 262144 + (n div 4096) mod 64 * 4096 + (n div 64) mod 64 * 64 + 0 = n"
    unfolding assms(2) .
  then show ?thesis
    unfolding value24_def base64Value_base64Char base64Value_A prod.case option.case
    by (simp only:)
qed

lemma group24_one_mod: "group24 a 0 0 mod 4096 = 0"
  by (simp add: group24_def)

lemma group24_two_mod: "group24 a b 0 mod 64 = 0"
  by (simp add: group24_def)

lemma unbase64_base64: "unbase64 (base64 bs) = Some bs"
proof (induction bs rule: base64.induct)
  case 1
  then show ?case by simp
next
  case (2 a)
  have "unbase64 (base64 [a])
      = map_option (\<lambda>n. take 1 (octets n))
          (value24 (base64Char (group24 a 0 0 div 262144)) (base64Char (group24 a 0 0 div 4096))
             CHR ''A'' CHR ''A'')"
    by (simp add: sextets_def)
  also have "\<dots> = Some (take 1 (octets (group24 a 0 0)))"
    by (simp add: value24_two group24_bound group24_one_mod)
  finally show ?case by (simp add: octets_group24)
next
  case (3 a b)
  have "unbase64 (base64 [a, b])
      = map_option (\<lambda>n. take 2 (octets n))
          (value24 (base64Char (group24 a b 0 div 262144)) (base64Char (group24 a b 0 div 4096))
             (base64Char (group24 a b 0 div 64)) CHR ''A'')"
    by (simp add: sextets_def base64Char_not_pad)
  also have "\<dots> = Some (take 2 (octets (group24 a b 0)))"
    by (simp add: value24_three group24_bound group24_two_mod)
  finally show ?case by (simp add: octets_group24)
next
  case (4 a b c rest)
  have "unbase64 (base64 (a # b # c # rest))
      = (case value24 (base64Char (group24 a b c div 262144)) (base64Char (group24 a b c div 4096))
                (base64Char (group24 a b c div 64)) (base64Char (group24 a b c)) of
           None \<Rightarrow> None
         | Some n \<Rightarrow> map_option (\<lambda>bs. octets n @ bs) (unbase64 (base64 rest)))"
    by (simp add: sextets_def base64Char_not_pad)
  also have "\<dots> = Some (octets (group24 a b c) @ rest)"
    by (simp add: value24_sextets group24_bound 4)
  finally show ?case by (simp add: octets_group24)
qed

lemma base64_no_comma: "CHR '','' \<notin> set (base64 bs)"
  by (induction bs rule: base64.induct) (simp_all add: sextets_def base64Char_not_comma [symmetric])

lemma base64_not_Nil: "bs \<noteq> [] \<Longrightarrow> base64 bs \<noteq> []"
  by (induction bs rule: base64.induct) (simp_all add: sextets_def)

lemma takeWhile_until:
  "\<forall>c \<in> set pre. P c \<Longrightarrow> \<not> P x \<Longrightarrow> takeWhile P (pre @ x # rest) = pre"
  by (induction pre) auto

lemma dropWhile_until:
  "\<forall>c \<in> set pre. P c \<Longrightarrow> \<not> P x \<Longrightarrow> dropWhile P (pre @ x # rest) = x # rest"
  by (induction pre) auto

lemma decodeDataURI_base64:
  assumes "CHR '','' \<notin> set t"
  shows "decodeDataURI (''data:'' @ t @ '';base64,'' @ base64 bs) = Some (t, bs)"
proof -
  let ?uri = "''data:'' @ t @ '';base64,'' @ base64 bs"
  have 1: "startsWith ?uri ''data:''"
    by (rule startsWith_append)
  have 2: "drop 5 ?uri = (t @ '';base64'') @ CHR '','' # base64 bs"
    by simp
  have nc: "\<forall>c \<in> set (t @ '';base64''). c \<noteq> CHR '',''"
    using assms by auto
  have 3: "takeWhile (\<lambda>c. c \<noteq> CHR '','') ((t @ '';base64'') @ CHR '','' # base64 bs) = t @ '';base64''"
    using nc by (rule takeWhile_until) simp
  have 4: "dropWhile (\<lambda>c. c \<noteq> CHR '','') ((t @ '';base64'') @ CHR '','' # base64 bs)
             = CHR '','' # base64 bs"
    using nc by (rule dropWhile_until) simp
  have 5: "endsWith (t @ '';base64'') '';base64''"
    by (rule endsWith_append)
  have 6: "take (length (t @ '';base64'') - 7) (t @ '';base64'') = t"
    by simp
  show ?thesis
    unfolding decodeDataURI_def 2 Let_def 3 4 6
    using 1 5 by (simp add: unbase64_base64 del: base64.simps unbase64.simps)
qed

lemma base64_sample: "base64 [77, 97, 110] = ''TWFu''"
  by (simp add: sextets_def group24_def base64Char_def base64Alphabet_def)

lemma fileToBase64_payload:
  "CHR '','' \<notin> set pre \<Longrightarrow> CHR '','' \<notin> set payload \<Longrightarrow> payload \<noteq> [] \<Longrightarrow>
   fileToBase64 (Loaded (pre @ CHR '','' # payload)) = Inr payload"
  by (simp add: fileToBase64_def split_append_sep split_no_sep at_def)

lemma fileToBase64_readAsDataURL:
  assumes "bytes f \<noteq> []" and "CHR '','' \<notin> set (type f)"
  shows "fileToBase64 (readAsDataURL f) = Inr (base64 (bytes f))"
proof -
  define t where "t = (if type f = [] then ''application/octet-stream'' else type f)"
  have t: "CHR '','' \<notin> set t"
    using assms(2) by (simp add: t_def)
  have r: "readAsDataURL f = Loaded ((''data:'' @ t @ '';base64'') @ CHR '','' # base64 (bytes f))"
    by (simp add: readAsDataURL_def t_def)
  have "CHR '','' \<notin> set (''data:'' @ t @ '';base64'')"
    using t by simp
  then show ?thesis
    unfolding r using base64_no_comma [of "bytes f"] base64_not_Nil [OF assms(1)]
    by (rule fileToBase64_payload)
qed

lemma fileToBase64_sampleFile: "fileToBase64 (readAsDataURL sampleFile) = Inr ''TWFu''"
proof -
  have "bytes sampleFile \<noteq> []" and "CHR '','' \<notin> set (type sampleFile)"
    by (simp_all add: sampleFile_def)
  then have "fileToBase64 (readAsDataURL sampleFile) = Inr (base64 (bytes sampleFile))"
    by (rule fileToBase64_readAsDataURL)
  also have "bytes sampleFile = [77, 97, 110]"
    by (simp add: sampleFile_def)
  finally show ?thesis
    by (simp only: base64_sample)
qed

lemma trim_sample: "trim ''make it blue'' = ''make it blue''"
  by (simp add: trim_def isWhiteSpace_def)

section \<open>Claims\<close>

text \<open>
  C3, as amended. When the read result is \<open>pre , payload\<close> with no comma in \<open>pre\<close>, and
  the payload is not empty and has no comma of its own, \<open>fileToBase64\<close> resolves with
  exactly the payload; when nothing follows the first comma, or the result has no comma,
  it rejects with the empty-result error.
\<close>

theorem C3_fileToBase64_payload:
  "(CHR '','' \<notin> set pre \<longrightarrow> CHR '','' \<notin> set payload \<longrightarrow> payload \<noteq> [] \<longrightarrow>
      fileToBase64 (Loaded (pre @ CHR '','' # payload)) = Inr payload)
   \<and> (CHR '','' \<notin> set pre \<longrightarrow>
      fileToBase64 (Loaded (pre @ [CHR '','']))
        = Inl (Error ''Failed to convert file to base64: result was empty.''))
   \<and> (CHR '','' \<notin> set pre \<longrightarrow>
      fileToBase64 (Loaded pre)
        = Inl (Error ''Failed to convert file to base64: result was empty.''))"
  by (simp add: fileToBase64_def split_append_sep split_no_sep at_def)

theorem C3_fileToBase64_payload_witness:
  "CHR '','' \<notin> set ''data:image/png;base64'' \<and> CHR '','' \<notin> set ''AAAA'' \<and> ''AAAA'' \<noteq> []
   \<and> fileToBase64 (Loaded ''data:image/png;base64,AAAA'') = Inr ''AAAA''
   \<and> fileToBase64 (Loaded ''data:image/png;base64,'')
        = Inl (Error ''Failed to convert file to base64: result was empty.'')
   \<and> fileToBase64 (Loaded ''data:image/png;base64'')
        = Inl (Error ''Failed to convert file to base64: result was empty.'')"
  using C3_fileToBase64_payload [of "''data:image/png;base64''" "''AAAA''"]
  by simp

text \<open>
  C3 as stated fails: for the read result of a zero-byte file nothing follows the first
  comma and the promise is rejected, not resolved with the empty string; and for a result
  with a second comma (a file whose declared type is \<open>a,b\<close>) only the piece up to the
  second comma is returned, not everything after the first.
\<close>

theorem C3_counterexample:
  "fileToBase64 (Loaded ''data:image/png;base64,'') \<noteq> Inr []
   \<and> fileToBase64 (Loaded ''data:image/png;base64,'')
        = Inl (Error ''Failed to convert file to base64: result was empty.'')
   \<and> fileToBase64 (Loaded ''data:a,b;base64,QQ=='') \<noteq> Inr ''b;base64,QQ==''
   \<and> fileToBase64 (Loaded ''data:a,b;base64,QQ=='') = Inr ''b;base64''"
  by (simp add: fileToBase64_def at_def)

text \<open>
  C4. When the remote call returns a response whose first candidate has content parts,
  and some part carries \<open>inlineData\<close>, \<open>editImageWithPrompt\<close> returns
  \<open>data:<mimeType>;base64,<data>\<close> of the first such part in order, whatever follows
  it; for the part \<open>{mimeType: "image/png", data: "AAAA"}\<close> this is
  \<open>data:image/png;base64,AAAA\<close>.
\<close>

theorem C4_first_inline_part:
  assumes "generateContent (editRequest base64ImageData mimeTypeArg userPrompt) = Returns r"
    and "candidates r = Some (c # cs)" and "content c = Some ct"
    and "parts ct = Some (pre @ x # rest)"
    and "\<forall>q \<in> set pre. inlineData q = None"
    and "inlineData x = Some b"
  shows "editImageWithPrompt typeErrorMessage generateContent base64ImageData mimeTypeArg userPrompt
           = Inr (''data:'' @ mimeType b @ '';base64,'' @ data b)"
proof -
  have "firstParts r = Inr (pre @ x # rest)"
    using assms(2-4) by (simp add: firstParts_def)
  moreover have "scanParts (pre @ x # rest) = Some (''data:'' @ mimeType b @ '';base64,'' @ data b)"
    using assms(5,6) by (rule scanParts_first)
  ultimately show ?thesis
    using assms(1) by (simp add: editImageWithPrompt_def tryBlock_def)
qed

theorem C4_first_inline_part_witness:
  "editImageWithPrompt sampleTypeErrorMessage
     (respondWith \<lparr> candidates = Some [\<lparr> content = Some \<lparr> parts = Some
        [ \<lparr> inlineData = None, partText = Some ''Here is your image'' \<rparr>,
          \<lparr> inlineData = Some \<lparr> data = ''AAAA'', mimeType = ''image/png'' \<rparr>, partText = None \<rparr>,
          \<lparr> inlineData = Some \<lparr> data = ''BBBB'', mimeType = ''image/jpeg'' \<rparr>, partText = None \<rparr> ] \<rparr> \<rparr>] \<rparr>)
     ''QUJD'' ''image/png'' ''make it blue''
   = Inr ''data:image/png;base64,AAAA''"
  using C4_first_inline_part
    [of "respondWith \<lparr> candidates = Some [\<lparr> content = Some \<lparr> parts = Some
        [ \<lparr> inlineData = None, partText = Some ''Here is your image'' \<rparr>,
          \<lparr> inlineData = Some \<lparr> data = ''AAAA'', mimeType = ''image/png'' \<rparr>, partText = None \<rparr>,
          \<lparr> inlineData = Some \<lparr> data = ''BBBB'', mimeType = ''image/jpeg'' \<rparr>, partText = None \<rparr> ] \<rparr> \<rparr>] \<rparr>"
        "''QUJD''" "''image/png''" "''make it blue''"
        "\<lparr> candidates = Some [\<lparr> content = Some \<lparr> parts = Some
        [ \<lparr> inlineData = None, partText = Some ''Here is your image'' \<rparr>,
          \<lparr> inlineData = Some \<lparr> data = ''AAAA'', mimeType = ''image/png'' \<rparr>, partText = None \<rparr>,
          \<lparr> inlineData = Some \<lparr> data = ''BBBB'', mimeType = ''image/jpeg'' \<rparr>, partText = None \<rparr> ] \<rparr> \<rparr>] \<rparr>"
        "\<lparr> content = Some \<lparr> parts = Some
        [ \<lparr> inlineData = None, partText = Some ''Here is your image'' \<rparr>,
          \<lparr> inlineData = Some \<lparr> data = ''AAAA'', mimeType = ''image/png'' \<rparr>, partText = None \<rparr>,
          \<lparr> inlineData = Some \<lparr> data = ''BBBB'', mimeType = ''image/jpeg'' \<rparr>, partText = None \<rparr> ] \<rparr> \<rparr>"
        "[]"
        "\<lparr> parts = Some
        [ \<lparr> inlineData = None, partText = Some ''Here is your image'' \<rparr>,
          \<lparr> inlineData = Some \<lparr> data = ''AAAA'', mimeType = ''image/png'' \<rparr>, partText = None \<rparr>,
          \<lparr> inlineData = Some \<lparr> data = ''BBBB'', mimeType = ''image/jpeg'' \<rparr>, partText = None \<rparr> ] \<rparr>"
        "[\<lparr> inlineData = None, partText = Some ''Here is your image'' \<rparr>]"
        "\<lparr> inlineData = Some \<lparr> data = ''AAAA'', mimeType = ''image/png'' \<rparr>, partText = None \<rparr>"
        "[\<lparr> inlineData = Some \<lparr> data = ''BBBB'', mimeType = ''image/jpeg'' \<rparr>, partText = None \<rparr>]"
        "\<lparr> data = ''AAAA'', mimeType = ''image/png'' \<rparr>"
        sampleTypeErrorMessage]
  by (simp add: respondWith_def)

text \<open>
  C5. When the remote call throws: an \<open>Error\<close> whose message contains
  \<open>API key not valid\<close> is replaced by the fixed configuration message, which is not the
  raw message; any other \<open>Error\<close> gives \<open>Failed to edit image: \<close> followed by the
  original message, which it therefore includes; a value that is not an \<open>Error\<close> gives
  the fixed unknown-error message.
\<close>

theorem C5_remote_failure:
  assumes "generateContent (editRequest base64ImageData mimeTypeArg userPrompt) = Throws e"
  shows "(\<forall>msg. e = Error msg \<and> includes_str msg ''API key not valid'' \<longrightarrow>
            editImageWithPrompt typeErrorMessage generateContent base64ImageData mimeTypeArg userPrompt
              = Inl (Error ''The provided API key is not valid. Please check your configuration.'')
            \<and> msg \<noteq> ''The provided API key is not valid. Please check your configuration.'')
       \<and> (\<forall>msg. e = Error msg \<and> \<not> includes_str msg ''API key not valid'' \<longrightarrow>
            editImageWithPrompt typeErrorMessage generateContent base64ImageData mimeTypeArg userPrompt
              = Inl (Error (''Failed to edit image: '' @ msg))
            \<and> includes_str (''Failed to edit image: '' @ msg) msg)
       \<and> (e = NonError \<longrightarrow>
            editImageWithPrompt typeErrorMessage generateContent base64ImageData mimeTypeArg userPrompt
              = Inl (Error ''An unknown error occurred while communicating with the AI model.''))"
proof -
  have fixed: "\<not> includes_str ''The provided API key is not valid. Please check your configuration.''
                   ''API key not valid''"
    by simp
  have run: "editImageWithPrompt typeErrorMessage generateContent base64ImageData mimeTypeArg userPrompt
               = Inl (catchBlock e)"
    using assms by (simp add: editImageWithPrompt_def tryBlock_def)
  have a: "catchBlock (Error msg)
             = Error ''The provided API key is not valid. Please check your configuration.''"
    if "includes_str msg ''API key not valid''" for msg
    using that by (simp add: catchBlock_def)
  have a': "msg \<noteq> ''The provided API key is not valid. Please check your configuration.''"
    if "includes_str msg ''API key not valid''" for msg
    using that fixed by blast
  have b: "catchBlock (Error msg) = Error (''Failed to edit image: '' @ msg)"
    if "\<not> includes_str msg ''API key not valid''" for msg
    using that by (simp add: catchBlock_def)
  have b': "includes_str (''Failed to edit image: '' @ msg) msg" for msg
    by (rule includes_str_suffix)
  have c: "catchBlock NonError
             = Error ''An unknown error occurred while communicating with the AI model.''"
    by (simp add: catchBlock_def)
  show ?thesis
    unfolding run using a a' b b' c by blast
qed

theorem C5_remote_failure_witness:
  "editImageWithPrompt sampleTypeErrorMessage
     (throwing (Error ''API key not valid. Please pass a valid API key.''))
     ''QUJD'' ''image/png'' ''make it blue''
     = Inl (Error ''The provided API key is not valid. Please check your configuration.'')
   \<and> editImageWithPrompt sampleTypeErrorMessage (throwing (Error ''fetch failed''))
     ''QUJD'' ''image/png'' ''make it blue''
     = Inl (Error ''Failed to edit image: fetch failed'')
   \<and> editImageWithPrompt sampleTypeErrorMessage (throwing NonError)
     ''QUJD'' ''image/png'' ''make it blue''
     = Inl (Error ''An unknown error occurred while communicating with the AI model.'')"
  using
    C5_remote_failure [where generateContent = "throwing (Error ''API key not valid. Please pass a valid API key.'')"
      and e = "Error ''API key not valid. Please pass a valid API key.''"
      and base64ImageData = "''QUJD''" and mimeTypeArg = "''image/png''"
      and userPrompt = "''make it blue''" and typeErrorMessage = sampleTypeErrorMessage]
    C5_remote_failure [where generateContent = "throwing (Error ''fetch failed'')"
      and e = "Error ''fetch failed''"
      and base64ImageData = "''QUJD''" and mimeTypeArg = "''image/png''"
      and userPrompt = "''make it blue''" and typeErrorMessage = sampleTypeErrorMessage]
    C5_remote_failure [where generateContent = "throwing NonError"
      and e = NonError
      and base64ImageData = "''QUJD''" and mimeTypeArg = "''image/png''"
      and userPrompt = "''make it blue''" and typeErrorMessage = sampleTypeErrorMessage]
  by (simp add: throwing_def)

text \<open>
  C1, as amended. When the remote call returns a response whose first candidate has
  content parts and no part carries \<open>inlineData\<close>, \<open>editImageWithPrompt\<close> fails, and the
  message is \<open>Failed to edit image: \<close> followed by the fixed text
  \<open>No image data was found in the API response.\<close>: the \<open>throw\<close> of line 44 is inside
  the \<open>try\<close>, and the \<open>catch\<close> rewrites it as it rewrites every other \<open>Error\<close>.
\<close>

theorem C1_no_image_in_response:
  assumes "generateContent (editRequest base64ImageData mimeTypeArg userPrompt) = Returns r"
    and "candidates r = Some (c # cs)" and "content c = Some ct" and "parts ct = Some ps"
    and "\<forall>q \<in> set ps. inlineData q = None"
  shows "editImageWithPrompt typeErrorMessage generateContent base64ImageData mimeTypeArg userPrompt
           = Inl (Error (''Failed to edit image: '' @ ''No image data was found in the API response.''))"
proof -
  have "firstParts r = Inr ps"
    using assms(2-4) by (simp add: firstParts_def)
  moreover have "scanParts ps = None"
    using assms(5) by (simp add: scanParts_None_iff)
  moreover have "catchBlock (Error ''No image data was found in the API response.'')
                   = Error (''Failed to edit image: '' @ ''No image data was found in the API response.'')"
    by (simp add: catchBlock_def)
  ultimately show ?thesis
    using assms(1) by (simp add: editImageWithPrompt_def tryBlock_def)
qed

theorem C1_no_image_in_response_witness:
  "editImageWithPrompt sampleTypeErrorMessage
     (respondWith \<lparr> candidates = Some [\<lparr> content = Some \<lparr> parts = Some
        [ \<lparr> inlineData = None, partText = Some ''I cannot edit this image.'' \<rparr> ] \<rparr> \<rparr>] \<rparr>)
     ''QUJD'' ''image/png'' ''make it blue''
   = Inl (Error ''Failed to edit image: No image data was found in the API response.'')"
  using C1_no_image_in_response
    [where generateContent = "respondWith \<lparr> candidates = Some [\<lparr> content = Some \<lparr> parts = Some
        [ \<lparr> inlineData = None, partText = Some ''I cannot edit this image.'' \<rparr> ] \<rparr> \<rparr>] \<rparr>"
      and r = "\<lparr> candidates = Some [\<lparr> content = Some \<lparr> parts = Some
        [ \<lparr> inlineData = None, partText = Some ''I cannot edit this image.'' \<rparr> ] \<rparr> \<rparr>] \<rparr>"
      and c = "\<lparr> content = Some \<lparr> parts = Some
        [ \<lparr> inlineData = None, partText = Some ''I cannot edit this image.'' \<rparr> ] \<rparr> \<rparr>"
      and cs = "[]"
      and ct = "\<lparr> parts = Some [ \<lparr> inlineData = None, partText = Some ''I cannot edit this image.'' \<rparr> ] \<rparr>"
      and ps = "[ \<lparr> inlineData = None, partText = Some ''I cannot edit this image.'' \<rparr> ]"
      and base64ImageData = "''QUJD''" and mimeTypeArg = "''image/png''"
      and userPrompt = "''make it blue''" and typeErrorMessage = sampleTypeErrorMessage]
  by (simp add: respondWith_def)

text \<open>
  C1 as stated fails. For a response with a text part only, the error is not the fixed
  text itself but its rewritten form; and for a response with no candidate at all (which
  has no part with image bytes either) the message is built from the text of the
  engine's \<open>TypeError\<close>.
\<close>

theorem C1_counterexample:
  "editImageWithPrompt sampleTypeErrorMessage
     (respondWith \<lparr> candidates = Some [\<lparr> content = Some \<lparr> parts = Some
        [ \<lparr> inlineData = None, partText = Some ''I cannot edit this image.'' \<rparr> ] \<rparr> \<rparr>] \<rparr>)
     ''QUJD'' ''image/png'' ''make it blue''
     \<noteq> Inl (Error ''No image data was found in the API response.'')
   \<and> editImageWithPrompt sampleTypeErrorMessage
     (respondWith \<lparr> candidates = Some [\<lparr> content = Some \<lparr> parts = Some
        [ \<lparr> inlineData = None, partText = Some ''I cannot edit this image.'' \<rparr> ] \<rparr> \<rparr>] \<rparr>)
     ''QUJD'' ''image/png'' ''make it blue''
     = Inl (Error ''Failed to edit image: No image data was found in the API response.'')
   \<and> editImageWithPrompt sampleTypeErrorMessage (respondWith \<lparr> candidates = Some [] \<rparr>)
     ''QUJD'' ''image/png'' ''make it blue''
     = Inl (Error ''Failed to edit image: Cannot read properties of undefined'')"
  by (simp add: editImageWithPrompt_def tryBlock_def firstParts_def catchBlock_def respondWith_def)

text \<open>
  C9. \<open>response.candidates[0].content.parts\<close> is read without a guard. The read faults
  exactly when \<open>candidates\<close> is absent or empty, or the first candidate has no content,
  or its content has no parts. The fault is thrown inside the \<open>try\<close>, so the failure is
  \<open>Failed to edit image: \<close> followed by the text of the engine's \<open>TypeError\<close> (as long
  as that text does not contain \<open>API key not valid\<close>), and never the message
  \<open>No image data was found in the API response.\<close> When the parts are there, the scan
  ends: with a URI, or with the rewritten no-image failure.
\<close>

theorem C9_unguarded_first_candidate:
  assumes "generateContent (editRequest base64ImageData mimeTypeArg userPrompt) = Returns r"
  shows "((\<exists>f. firstParts r = Inl f) \<longleftrightarrow>
            (candidates r = None \<or> candidates r = Some [] \<or>
             (\<exists>c cs. candidates r = Some (c # cs) \<and>
                (content c = None \<or> (\<exists>ct. content c = Some ct \<and> parts ct = None)))))
       \<and> (\<forall>f. firstParts r = Inl f \<and> \<not> includes_str (typeErrorMessage f) ''API key not valid'' \<longrightarrow>
            editImageWithPrompt typeErrorMessage generateContent base64ImageData mimeTypeArg userPrompt
              = Inl (Error (''Failed to edit image: '' @ typeErrorMessage f)))
       \<and> (\<forall>f. firstParts r = Inl f \<longrightarrow>
            editImageWithPrompt typeErrorMessage generateContent base64ImageData mimeTypeArg userPrompt
              \<noteq> Inl (Error ''No image data was found in the API response.''))
       \<and> (\<forall>ps. firstParts r = Inr ps \<longrightarrow>
            (\<exists>uri. scanParts ps = Some uri \<and>
               editImageWithPrompt typeErrorMessage generateContent base64ImageData mimeTypeArg userPrompt
                 = Inr uri)
            \<or> (scanParts ps = None \<and>
               editImageWithPrompt typeErrorMessage generateContent base64ImageData mimeTypeArg userPrompt
                 = Inl (Error (''Failed to edit image: '' @ ''No image data was found in the API response.''))))"
proof -
  have run: "editImageWithPrompt typeErrorMessage generateContent base64ImageData mimeTypeArg userPrompt
      = (case firstParts r of
           Inl f \<Rightarrow> Inl (catchBlock (Error (typeErrorMessage f)))
         | Inr ps \<Rightarrow>
             (case scanParts ps of
                Some uri \<Rightarrow> Inr uri
              | None \<Rightarrow> Inl (catchBlock (Error ''No image data was found in the API response.''))))"
    using assms by (simp add: editImageWithPrompt_def tryBlock_def split: sum.splits option.splits)
  have rewritten: "catchBlock (Error m) = Error (''Failed to edit image: '' @ m)"
    if "\<not> includes_str m ''API key not valid''" for m
    using that by (simp add: catchBlock_def)
  have never: "catchBlock (Error m) \<noteq> Error ''No image data was found in the API response.''" for m
    by (simp add: catchBlock_def)
  have noimage: "catchBlock (Error ''No image data was found in the API response.'')
                   = Error (''Failed to edit image: '' @ ''No image data was found in the API response.'')"
    by (simp add: catchBlock_def)
  have 2: "\<forall>f. firstParts r = Inl f \<and> \<not> includes_str (typeErrorMessage f) ''API key not valid'' \<longrightarrow>
            editImageWithPrompt typeErrorMessage generateContent base64ImageData mimeTypeArg userPrompt
              = Inl (Error (''Failed to edit image: '' @ typeErrorMessage f))"
    unfolding run using rewritten by auto
  have 3: "\<forall>f. firstParts r = Inl f \<longrightarrow>
            editImageWithPrompt typeErrorMessage generateContent base64ImageData mimeTypeArg userPrompt
              \<noteq> Inl (Error ''No image data was found in the API response.'')"
    unfolding run using never by auto
  have 4: "\<forall>ps. firstParts r = Inr ps \<longrightarrow>
            (\<exists>uri. scanParts ps = Some uri \<and>
               editImageWithPrompt typeErrorMessage generateContent base64ImageData mimeTypeArg userPrompt
                 = Inr uri)
            \<or> (scanParts ps = None \<and>
               editImageWithPrompt typeErrorMessage generateContent base64ImageData mimeTypeArg userPrompt
                 = Inl (Error (''Failed to edit image: '' @ ''No image data was found in the API response.'')))"
    unfolding run noimage by (auto split: option.splits)
  show ?thesis
    using firstParts_Inl_iff [of r] 2 3 4 by blast
qed

theorem C9_unguarded_first_candidate_witness:
  "firstParts \<lparr> candidates = Some [] \<rparr> = Inl ContentOfUndefined
   \<and> \<not> includes_str (sampleTypeErrorMessage ContentOfUndefined) ''API key not valid''
   \<and> editImageWithPrompt sampleTypeErrorMessage (respondWith \<lparr> candidates = Some [] \<rparr>)
         ''QUJD'' ''image/png'' ''make it blue''
       = Inl (Error ''Failed to edit image: Cannot read properties of undefined'')
   \<and> editImageWithPrompt sampleTypeErrorMessage (respondWith \<lparr> candidates = Some [] \<rparr>)
         ''QUJD'' ''image/png'' ''make it blue''
       \<noteq> Inl (Error ''No image data was found in the API response.'')"
  using C9_unguarded_first_candidate
    [where generateContent = "respondWith \<lparr> candidates = Some [] \<rparr>"
      and r = "\<lparr> candidates = Some [] \<rparr>"
      and base64ImageData = "''QUJD''" and mimeTypeArg = "''image/png''"
      and userPrompt = "''make it blue''" and typeErrorMessage = sampleTypeErrorMessage]
  by (simp add: respondWith_def firstParts_def)

text \<open>
  C6. When no file is selected, or the prompt is empty or consists of white space only,
  \<open>handleSubmit\<close> returns at once without calling \<open>fileToBase64\<close> or
  \<open>editImageWithPrompt\<close> (nothing is awaited), and the new state is the old one with the
  validation message as \<open>error\<close>: file, preview, result, prompt and in-flight flag are
  unchanged. The missing file is reported first.
\<close>

theorem C6_validation:
  "(originalImageFile s = None \<longrightarrow>
      handleSubmit s = (s\<lparr> error := Some ''Please upload an image first.'' \<rparr>, None))
   \<and> (originalImageFile s \<noteq> None \<and> (\<forall>c \<in> set (prompt s). isWhiteSpace c) \<longrightarrow>
      handleSubmit s = (s\<lparr> error := Some ''Please enter an editing prompt.'' \<rparr>, None))"
  by (auto simp: handleSubmit_def trim_Nil_iff split: option.splits)

theorem C6_validation_witness:
  "originalImageFile initialSession = None
   \<and> handleSubmit initialSession
       = (initialSession\<lparr> error := Some ''Please upload an image first.'' \<rparr>, None)
   \<and> originalImageFile (readySession\<lparr> prompt := [CHR 0x20, CHR 0x09, CHR 0x0A] \<rparr>) \<noteq> None
   \<and> isWhiteSpace (CHR 0x20) \<and> isWhiteSpace (CHR 0x09) \<and> isWhiteSpace (CHR 0x0A)
   \<and> handleSubmit (readySession\<lparr> prompt := [CHR 0x20, CHR 0x09, CHR 0x0A] \<rparr>)
       = (readySession\<lparr> prompt := [CHR 0x20, CHR 0x09, CHR 0x0A],
                        error := Some ''Please enter an editing prompt.'' \<rparr>, None)"
  using C6_validation [of initialSession]
    C6_validation [of "readySession\<lparr> prompt := [CHR 0x20, CHR 0x09, CHR 0x0A] \<rparr>"]
  by (simp add: initialSession_def readySession_def isWhiteSpace_def)

text \<open>
  C2, as amended. The failure handling of \<open>handleSubmit\<close> (its \<open>catch\<close> and
  \<open>finally\<close>) changes the error message and the in-flight flag only, and leaves the
  stored result as it was when the failure arrived. But the submission clears the
  stored result when it starts: after a submission that fails in \<open>fileToBase64\<close> or in
  \<open>editImageWithPrompt\<close>, with nothing else in between, the state is the one before the
  submission with the flag cleared, the failure's message as error, and no result.
\<close>

theorem C2_failed_submission:
  "resume k (Inl err) s
     = (s\<lparr> error := Some (case err of Error message \<Rightarrow> message
                                     | NonError \<Rightarrow> ''An unexpected error occurred.''),
           isLoading := False \<rparr>, None)
   \<and> (\<forall>f e. originalImageFile s = Some f \<and> trim (prompt s) \<noteq> []
          \<and> fileToBase64 (readAs f) = Inl e \<longrightarrow>
        submitRun readAs typeErrorMessage generateContent s
          = s\<lparr> isLoading := False,
               error := Some (case e of Error message \<Rightarrow> message
                                      | NonError \<Rightarrow> ''An unexpected error occurred.''),
               editedImage := None \<rparr>)
   \<and> (\<forall>f b e. originalImageFile s = Some f \<and> trim (prompt s) \<noteq> []
          \<and> fileToBase64 (readAs f) = Inr b
          \<and> editImageWithPrompt typeErrorMessage generateContent b (type f) (prompt s) = Inl e \<longrightarrow>
        submitRun readAs typeErrorMessage generateContent s
          = s\<lparr> isLoading := False,
               error := Some (case e of Error message \<Rightarrow> message
                                      | NonError \<Rightarrow> ''An unexpected error occurred.''),
               editedImage := None \<rparr>)"
proof (intro conjI allI impI)
  show "resume k (Inl err) s
     = (s\<lparr> error := Some (case err of Error message \<Rightarrow> message
                                     | NonError \<Rightarrow> ''An unexpected error occurred.''),
           isLoading := False \<rparr>, None)"
    by (rule resume_failure)
next
  fix f e
  assume a: "originalImageFile s = Some f \<and> trim (prompt s) \<noteq> []
             \<and> fileToBase64 (readAs f) = Inl e"
  then have "handleSubmit s
     = (s\<lparr> isLoading := True, error := None, editedImage := None \<rparr>,
        Some (AwaitingEncoder f (prompt s)))"
    by (simp add: handleSubmit_starts)
  with a show "submitRun readAs typeErrorMessage generateContent s
          = s\<lparr> isLoading := False,
               error := Some (case e of Error message \<Rightarrow> message
                                      | NonError \<Rightarrow> ''An unexpected error occurred.''),
               editedImage := None \<rparr>"
    by (simp add: submitRun_def resume_failure del: resume.simps)
next
  fix f b e
  assume a: "originalImageFile s = Some f \<and> trim (prompt s) \<noteq> []
             \<and> fileToBase64 (readAs f) = Inr b
             \<and> editImageWithPrompt typeErrorMessage generateContent b (type f) (prompt s) = Inl e"
  then have "handleSubmit s
     = (s\<lparr> isLoading := True, error := None, editedImage := None \<rparr>,
        Some (AwaitingEncoder f (prompt s)))"
    by (simp add: handleSubmit_starts)
  with a show "submitRun readAs typeErrorMessage generateContent s
          = s\<lparr> isLoading := False,
               error := Some (case e of Error message \<Rightarrow> message
                                      | NonError \<Rightarrow> ''An unexpected error occurred.''),
               editedImage := None \<rparr>"
    by (simp add: submitRun_def submitCatch_def submitFinally_def)
qed

theorem C2_failed_submission_witness:
  "originalImageFile doneSession = Some sampleFile \<and> trim (prompt doneSession) \<noteq> []
   \<and> fileToBase64 (readFails sampleFile)
       = Inl (Error ''File could not be read: [object ProgressEvent]'')
   \<and> submitRun readFails sampleTypeErrorMessage (throwing NonError) doneSession
       = doneSession\<lparr> isLoading := False,
                       error := Some ''File could not be read: [object ProgressEvent]'',
                       editedImage := None \<rparr>
   \<and> fileToBase64 (readAsDataURL sampleFile) = Inr ''TWFu''
   \<and> editImageWithPrompt sampleTypeErrorMessage (throwing NonError) ''TWFu''
         (type sampleFile) (prompt doneSession)
       = Inl (Error ''An unknown error occurred while communicating with the AI model.'')
   \<and> submitRun readAsDataURL sampleTypeErrorMessage (throwing NonError) doneSession
       = doneSession\<lparr> isLoading := False,
                       error := Some ''An unknown error occurred while communicating with the AI model.'',
                       editedImage := None \<rparr>"
proof -
  have 1: "originalImageFile doneSession = Some sampleFile"
    by (simp add: doneSession_def readySession_def)
  have 2: "trim (prompt doneSession) \<noteq> []"
    by (simp add: doneSession_def readySession_def trim_sample)
  have 3: "fileToBase64 (readFails sampleFile)
             = Inl (Error ''File could not be read: [object ProgressEvent]'')"
    by (simp add: readFails_def fileToBase64_def)
  have 4: "editImageWithPrompt sampleTypeErrorMessage (throwing NonError) ''TWFu''
             (type sampleFile) (prompt doneSession)
           = Inl (Error ''An unknown error occurred while communicating with the AI model.'')"
    by (simp add: editImageWithPrompt_def tryBlock_def throwing_def catchBlock_def)
  show ?thesis
    using 1 2 3 4 fileToBase64_sampleFile
      C2_failed_submission [where s = doneSession and readAs = readFails
        and typeErrorMessage = sampleTypeErrorMessage and generateContent = "throwing NonError"]
      C2_failed_submission [where s = doneSession and readAs = readAsDataURL
        and typeErrorMessage = sampleTypeErrorMessage and generateContent = "throwing NonError"]
    by simp
qed

text \<open>
  C2 as stated fails: a session that holds a result, submitted again with a reader that
  reports an error, ends with no result, not with the result it had before the
  submission began.
\<close>

theorem C2_counterexample:
  "editedImage doneSession = Some ''data:image/png;base64,AAAA''
   \<and> editedImage (submitRun readFails sampleTypeErrorMessage (throwing NonError) doneSession) = None
   \<and> editedImage (submitRun readFails sampleTypeErrorMessage (throwing NonError) doneSession)
       \<noteq> editedImage doneSession"
  by (simp add: submitRun_def handleSubmit_def doneSession_def readySession_def trim_sample
      readFails_def fileToBase64_def submitCatch_def submitFinally_def)

text \<open>
  C10. In every state that the events of the component can reach (a file is chosen, the
  prompt is edited while the textarea is enabled, the button is clicked while it is
  enabled, an awaited promise settles), when \<open>isLoading\<close> is true both \<open>editedImage\<close>
  and \<open>error\<close> are null. A submission that starts sets the flag and clears both; a
  segment of \<open>handleSubmit\<close> that runs after an \<open>await\<close> either ends the call with the
  flag cleared, or stores nothing. The states are those between the segments: within
  the last segment \<open>setEditedImage\<close> or \<open>setError\<close> is called before
  \<open>setIsLoading(false)\<close>, and the two changes are committed as one.
\<close>

theorem C10_loading_invariant:
  "(reachable (s, ks) \<and> isLoading s \<longrightarrow> editedImage s = None \<and> error s = None)
   \<and> (\<forall>s' k. handleSubmit s = (s', Some k) \<longrightarrow>
         isLoading s' \<and> editedImage s' = None \<and> error s' = None)
   \<and> (\<forall>k outcome s' k'. resume k outcome s = (s', k') \<longrightarrow>
         (k' = None \<and> \<not> isLoading s') \<or> (k' \<noteq> None \<and> s' = s))"
proof (intro conjI allI impI)
  assume "reachable (s, ks) \<and> isLoading s"
  with reachable_loading_clean [of "(s, ks)"]
  show "editedImage s = None" and "error s = None"
    by simp_all
next
  fix s' k
  assume "handleSubmit s = (s', Some k)"
  then have "s' = s\<lparr> isLoading := True, error := None, editedImage := None \<rparr>"
    by (rule handleSubmit_Some)
  then show "isLoading s'" and "editedImage s' = None" and "error s' = None"
    by simp_all
next
  fix k outcome s' k'
  assume "resume k outcome s = (s', k')"
  then show "(k' = None \<and> \<not> isLoading s') \<or> (k' \<noteq> None \<and> s' = s)"
    by (rule resume_cases)
qed

theorem C10_loading_invariant_witness:
  "reachable (readySession\<lparr> isLoading := True \<rparr>, [AwaitingEncoder sampleFile ''make it blue''])
   \<and> isLoading (readySession\<lparr> isLoading := True \<rparr>)
   \<and> editedImage (readySession\<lparr> isLoading := True \<rparr>) = None
   \<and> error (readySession\<lparr> isLoading := True \<rparr>) = None"
proof -
  have s1: "handleImageChange (Some sampleFile) ''blob:1'' initialSession
              = readySession\<lparr> prompt := [] \<rparr>"
    by (simp add: handleImageChange_def initialSession_def readySession_def)
  have s2: "readySession\<lparr> prompt := [] \<rparr>\<lparr> prompt := ''make it blue'' \<rparr> = readySession"
    by (simp add: readySession_def)
  have s3: "handleSubmit readySession
              = (readySession\<lparr> isLoading := True \<rparr>, Some (AwaitingEncoder sampleFile ''make it blue''))"
    by (simp add: handleSubmit_def readySession_def trim_sample)
  have r0: "reachable (initialSession, [])"
    by (rule reachable.initial)
  have "step (initialSession, []) (handleImageChange (Some sampleFile) ''blob:1'' initialSession, [])"
    by (rule step.selectFile)
  with r0 have r1: "reachable (readySession\<lparr> prompt := [] \<rparr>, [])"
    unfolding s1 by (rule reachable.after)
  have "step (readySession\<lparr> prompt := [] \<rparr>, [])
             (readySession\<lparr> prompt := [] \<rparr>\<lparr> prompt := ''make it blue'' \<rparr>, [])"
    by (rule step.editPrompt) (simp add: readySession_def)
  with r1 have r2: "reachable (readySession, [])"
    unfolding s2 by (rule reachable.after)
  have "step (readySession, [])
             (readySession\<lparr> isLoading := True \<rparr>,
              [] @ (case Some (AwaitingEncoder sampleFile ''make it blue'') of
                      None \<Rightarrow> [] | Some k' \<Rightarrow> [k']))"
    by (rule step.clickSubmit [OF _ s3]) (simp add: readySession_def)
  with r2 have r3: "reachable (readySession\<lparr> isLoading := True \<rparr>,
                               [AwaitingEncoder sampleFile ''make it blue''])"
    by (simp add: reachable.after)
  have l: "isLoading (readySession\<lparr> isLoading := True \<rparr>)"
    by simp
  from C10_loading_invariant [of "readySession\<lparr> isLoading := True \<rparr>"
        "[AwaitingEncoder sampleFile ''make it blue'']"] r3 l
  have "editedImage (readySession\<lparr> isLoading := True \<rparr>) = None
        \<and> error (readySession\<lparr> isLoading := True \<rparr>) = None"
    by blast
  with r3 l show ?thesis
    by blast
qed

text \<open>
  C7. For every file with at least one byte and a declared media type without a comma,
  whose read succeeds: \<open>fileToBase64\<close> resolves with the base64 text of the content,
  and that text, put back into \<open>data:<type>;base64,<text>\<close> with the file's media type,
  decodes to the same media type and to exactly the bytes of the file.
\<close>

theorem C7_round_trip:
  assumes "bytes f \<noteq> []" and "CHR '','' \<notin> set (type f)"
  shows "\<exists>out. fileToBase64 (readAsDataURL f) = Inr out
           \<and> decodeDataURI (''data:'' @ type f @ '';base64,'' @ out) = Some (type f, bytes f)"
proof -
  have "fileToBase64 (readAsDataURL f) = Inr (base64 (bytes f))"
    using assms by (rule fileToBase64_readAsDataURL)
  moreover have "decodeDataURI (''data:'' @ type f @ '';base64,'' @ base64 (bytes f))
                   = Some (type f, bytes f)"
    using assms(2) by (rule decodeDataURI_base64)
  ultimately show ?thesis by blast
qed

theorem C7_round_trip_witness:
  "bytes sampleFile \<noteq> [] \<and> CHR '','' \<notin> set (type sampleFile)
   \<and> fileToBase64 (readAsDataURL sampleFile) = Inr ''TWFu''
   \<and> decodeDataURI (''data:'' @ type sampleFile @ '';base64,'' @ ''TWFu'')
       = Some (type sampleFile, bytes sampleFile)"
proof -
  have 1: "bytes sampleFile \<noteq> []" and 2: "CHR '','' \<notin> set (type sampleFile)"
    by (simp_all add: sampleFile_def)
  from C7_round_trip [OF 1 2] obtain out
    where "fileToBase64 (readAsDataURL sampleFile) = Inr out"
      and "decodeDataURI (''data:'' @ type sampleFile @ '';base64,'' @ out)
             = Some (type sampleFile, bytes sampleFile)"
    by blast
  with fileToBase64_sampleFile 1 2 show ?thesis
    by simp
qed

text \<open>
  C8. \<open>handleDownload\<close> saves the current result as \<open>alchemized-image.<extension>\<close>.
  For a result \<open>scheme:type/subtype;rest\<close> (as \<open>data:image/jpeg;base64,...\<close>) the
  extension is the subtype. It is \<open>png\<close> when the media type is missing (no colon before
  the first semicolon, or nothing between them) and when it has no type/subtype form (no
  slash, or nothing after the slash). Here \<open>scheme\<close>, \<open>type\<close> and \<open>subtype\<close> stand for
  texts without the separators the source splits at.
\<close>

theorem C8_download_extension:
  assumes "CHR '':'' \<notin> set scheme" and "CHR '';'' \<notin> set scheme"
    and "set t \<inter> {CHR '':'', CHR '';'', CHR ''/''} = {}"
    and "set sub \<inter> {CHR '':'', CHR '';'', CHR ''/''} = {}"
  shows "(editedImage s = Some uri \<and> uri \<noteq> [] \<longrightarrow>
            handleDownload s = Some (uri, ''alchemized-image.'' @ extensionOf uri))
       \<and> (editedImage s = None \<or> editedImage s = Some [] \<longrightarrow> handleDownload s = None)
       \<and> (sub \<noteq> [] \<longrightarrow> extensionOf (scheme @ '':'' @ t @ ''/'' @ sub @ '';'' @ rest) = sub)
       \<and> extensionOf (scheme @ '':'' @ t @ '';'' @ rest) = ''png''
       \<and> extensionOf (scheme @ '':'' @ t @ ''/'' @ '';'' @ rest) = ''png''
       \<and> extensionOf (scheme @ '';'' @ rest) = ''png''
       \<and> extensionOf scheme = ''png''"
proof -
  have "editedImage s = Some uri \<and> uri \<noteq> [] \<longrightarrow>
          handleDownload s = Some (uri, ''alchemized-image.'' @ extensionOf uri)"
    by (simp add: handleDownload_def)
  moreover have "editedImage s = None \<or> editedImage s = Some [] \<longrightarrow> handleDownload s = None"
    by (auto simp: handleDownload_def)
  moreover have "sub \<noteq> [] \<longrightarrow> extensionOf (scheme @ '':'' @ t @ ''/'' @ sub @ '';'' @ rest) = sub"
    using assms by (blast intro: extensionOf_subtype)
  moreover have "extensionOf (scheme @ '':'' @ t @ '';'' @ rest) = ''png''"
    using assms(1-3) by (rule extensionOf_no_slash)
  moreover have "extensionOf (scheme @ '':'' @ t @ ''/'' @ '';'' @ rest) = ''png''"
    using assms(1-3) by (rule extensionOf_empty_subtype)
  moreover have "extensionOf (scheme @ '';'' @ rest) = ''png''"
    using assms(1,2) by (rule extensionOf_no_colon)
  moreover have "extensionOf scheme = ''png''"
    using assms(1,2) by (rule extensionOf_no_colon)
  ultimately show ?thesis
    by blast
qed

theorem C8_download_extension_witness:
  "CHR '':'' \<notin> set ''data'' \<and> CHR '';'' \<notin> set ''data''
   \<and> set ''image'' \<inter> {CHR '':'', CHR '';'', CHR ''/''} = {}
   \<and> set ''jpeg'' \<inter> {CHR '':'', CHR '';'', CHR ''/''} = {}
   \<and> handleDownload (readySession\<lparr> editedImage := Some ''data:image/jpeg;base64,AAAA'' \<rparr>)
       = Some (''data:image/jpeg;base64,AAAA'', ''alchemized-image.jpeg'')
   \<and> extensionOf ''data:image/jpeg;base64,AAAA'' = ''jpeg''
   \<and> extensionOf ''data:image;base64,AAAA'' = ''png''
   \<and> extensionOf ''data:image/;base64,AAAA'' = ''png''
   \<and> extensionOf ''data;base64,AAAA'' = ''png''
   \<and> extensionOf ''data'' = ''png''"
  using C8_download_extension [where scheme = "''data''" and t = "''image''" and sub = "''jpeg''"
      and rest = "''base64,AAAA''" and uri = "''data:image/jpeg;base64,AAAA''"
      and s = "readySession\<lparr> editedImage := Some ''data:image/jpeg;base64,AAAA'' \<rparr>"]
  by simp

end
